theory Spec2Isabelle
  imports Main "HOL-Library.AList"
begin

section \<open>Strings\<close>

text \<open>
  Python strings are modelled as \<open>string\<close> (lists of 8-bit characters) and read as ASCII
  text: characters above 127 are ordinary characters that are neither digits, letters
  nor whitespace.
\<close>

definition digit_char :: "nat \<Rightarrow> char" where
  "digit_char d = ''0123456789'' ! d"

text \<open>\<open>str(n)\<close> for a non-negative integer: its decimal digits.\<close>

fun str_nat :: "nat \<Rightarrow> string" where
  "str_nat n = (if n < 10 then [digit_char n] else str_nat (n div 10) @ [digit_char (n mod 10)])"

declare str_nat.simps [simp del]

text \<open>\<open>sep.join(parts)\<close>.\<close>

fun join :: "string \<Rightarrow> string list \<Rightarrow> string" where
  "join sep [] = []"
| "join sep [p] = p"
| "join sep (p # q # ps) = p @ sep @ join sep (q # ps)"

section \<open>ByteFormatter, multi-unit mode: \<open>format_bytes_multiple_units\<close>\<close>

text \<open>The \<open>units\<close> table of the function, largest unit first.\<close>

definition units :: "(string \<times> int) list" where
  "units = [(''TB'', 1024 ^ 4), (''GB'', 1024 ^ 3), (''MB'', 1024 ^ 2), (''KB'', 1024), (''B'', 1)]"

text \<open>
  The \<open>for unit_name, unit_size in units\<close> loop. Each element appended to \<open>parts\<close> is kept
  as the pair \<open>(value, unit_name)\<close> that the source formats as \<open>f"{value} {unit_name}"\<close>;
  the text is produced by \<open>render_part\<close> at the join.
\<close>

fun units_loop :: "(string \<times> int) list \<Rightarrow> int \<Rightarrow> (int \<times> string) list" where
  "units_loop [] remaining = []"
| "units_loop ((unit_name, unit_size) # us) remaining =
     (if remaining \<ge> unit_size
      then (remaining div unit_size, unit_name) # units_loop us (remaining mod unit_size)
      else units_loop us remaining)"

definition render_part :: "int \<times> string \<Rightarrow> string" where
  "render_part p = str_nat (nat (fst p)) @ '' '' @ snd p"

definition format_bytes_multiple_units :: "int \<Rightarrow> string" where
  "format_bytes_multiple_units bytes =
     (if bytes = 0 then ''0 B''
      else (let parts = map render_part (units_loop units bytes)
            in if parts \<noteq> [] then join '' '' parts else ''0 B''))"

text \<open>The size in bytes of a unit named in a printed component.\<close>

definition unit_value :: "string \<Rightarrow> int" where
  "unit_value u = (case map_of units u of Some s \<Rightarrow> s | None \<Rightarrow> 0)"

section \<open>LogStore: \<open>_get_log_filename\<close>\<close>

text \<open>\<open>s.rstrip(chars)\<close>: drop the longest suffix made of characters of \<open>chars\<close>.\<close>

definition rstrip :: "string \<Rightarrow> string \<Rightarrow> string" where
  "rstrip chars s = rev (dropWhile (\<lambda>c. c \<in> set chars) (rev s))"

text \<open>\<open>s.replace(old, new)\<close> for a one-character \<open>old\<close>.\<close>

definition replace_char :: "char \<Rightarrow> string \<Rightarrow> string \<Rightarrow> string" where
  "replace_char old new s = concat (map (\<lambda>c. if c = old then new else [c]) s)"

definition path_separators :: string where
  "path_separators = [CHR 0x5C, CHR ''/'']"

text \<open>The value of \<open>safe_name\<close> at the \<open>return\<close>.\<close>

definition safe_name :: "string \<Rightarrow> string" where
  "safe_name drive_path =
     (let s = replace_char CHR ''/'' ''_'' (replace_char (CHR 0x5C) ''_'' (rstrip path_separators drive_path));
          s = (if s = '''' \<or> s = ''_'' then ''root'' else s)
      in replace_char CHR '':'' '''' s)"

text \<open>
  The name of the log file inside the data directory, \<open>f"{safe_name}.log"\<close>. The name has
  no separator left, so the path returned is the data directory joined with this name.
\<close>

definition get_log_filename :: "string \<Rightarrow> string" where
  "get_log_filename drive_path = safe_name drive_path @ ''.log''"

section \<open>Exceptions and JSON values\<close>

text \<open>The exception classes that the program raises or meets.\<close>

datatype py_error =
  FileNotFoundError | JSONDecodeError | ValueError | ZeroDivisionError | OverflowError
  | AttributeError | TypeError | OSError

text \<open>
  What \<open>json.load\<close> returns. Numbers are integers: a tracking file with a fractional
  number in it is outside the model. An object is kept as the list of its members, each
  name once, in the order of the file.
\<close>

datatype json =
  JNull | JBool bool | JInt int | JStr string | JArray "json list" | JObject "(string \<times> json) list"

text \<open>
  \<open>v + 1\<close> and \<open>v >= m\<close> for a loaded value \<open>v\<close> and an integer \<open>m\<close>: integers and booleans
  (which Python counts as 0 and 1) take part in arithmetic, anything else raises
  \<open>TypeError\<close>.
\<close>

definition py_add_one :: "json \<Rightarrow> py_error + json" where
  "py_add_one v =
     (case v of JInt n \<Rightarrow> Inr (JInt (n + 1)) | JBool b \<Rightarrow> Inr (JInt (of_bool b + 1)) | _ \<Rightarrow> Inl TypeError)"

definition py_ge :: "json \<Rightarrow> int \<Rightarrow> py_error + bool" where
  "py_ge v m =
     (case v of JInt n \<Rightarrow> Inr (n \<ge> m) | JBool b \<Rightarrow> Inr (of_bool b \<ge> m) | _ \<Rightarrow> Inl TypeError)"

section \<open>Floating-point numbers\<close>

text \<open>
  A Python \<open>float\<close> is an IEEE 754 binary64 number. The floats of this program are never
  negative and never NaN: \<open>Finite m e\<close> is the number \<open>m * 2 ^ e\<close>, with \<open>m\<close> odd (or
  \<open>m = 0\<close> and \<open>e = 0\<close>), and \<open>Infinity\<close> is \<open>inf\<close>. Every operation is the exact
  result rounded to the nearest binary64 number, ties to even (\<open>round_fraction\<close>, on the
  exact quotient \<open>a / b\<close> of two natural numbers).
\<close>

datatype pyfloat = Finite nat int | Infinity

fun ilog2 :: "nat \<Rightarrow> nat" where
  "ilog2 n = (if n < 2 then 0 else Suc (ilog2 (n div 2)))"

declare ilog2.simps [simp del]

text \<open>The integer \<open>E\<close> with \<open>2 ^ E \<le> a / b < 2 ^ (E + 1)\<close>, for \<open>a\<close> and \<open>b\<close> positive.\<close>

definition exponent :: "nat \<Rightarrow> nat \<Rightarrow> int" where
  "exponent a b =
     (let d = int (ilog2 a) - int (ilog2 b)
      in if (if 0 \<le> d then b * 2 ^ nat d \<le> a else b \<le> a * 2 ^ nat (- d)) then d else d - 1)"

text \<open>\<open>a / b\<close> rounded to the nearest integer, ties to even.\<close>

definition round_half_even :: "nat \<Rightarrow> nat \<Rightarrow> nat" where
  "round_half_even a b =
     (let q = a div b; r = a mod b
      in if 2 * r < b then q else if b < 2 * r then q + 1 else if even q then q else q + 1)"

fun dyadic :: "nat \<Rightarrow> int \<Rightarrow> pyfloat" where
  "dyadic m e = (if m = 0 then Finite 0 0 else if even m then dyadic (m div 2) (e + 1) else Finite m e)"

declare dyadic.simps [simp del]

text \<open>
  Rounding to 53 significant bits, or to a multiple of \<open>2 ^ (- 1074)\<close> below the normal
  range; a result of \<open>2 ^ 1024\<close> or more is \<open>inf\<close>.
\<close>

definition round_fraction :: "nat \<Rightarrow> nat \<Rightarrow> pyfloat" where
  "round_fraction a b =
     (if a = 0 then Finite 0 0
      else (let q = max (exponent a b) (- 1022) - 52
            in if q < 0 then dyadic (round_half_even (a * 2 ^ nat (- q)) b) q
               else (let m = round_half_even a (b * 2 ^ nat q)
                     in if 2 ^ 1024 \<le> m * 2 ^ nat q then Infinity else dyadic m q)))"

text \<open>\<open>float(n)\<close> for an integer \<open>n \<ge> 0\<close>, as the arithmetic and the formatting apply it.\<close>

definition float_of_int :: "int \<Rightarrow> py_error + pyfloat" where
  "float_of_int n =
     (case round_fraction (nat n) 1 of Infinity \<Rightarrow> Inl OverflowError | Finite m e \<Rightarrow> Inr (Finite m e))"

text \<open>\<open>a / b\<close> for integers \<open>a \<ge> 0\<close> and \<open>b \<ge> 0\<close>: the quotient correctly rounded.\<close>

definition int_true_div :: "int \<Rightarrow> int \<Rightarrow> py_error + pyfloat" where
  "int_true_div a b =
     (if b = 0 then Inl ZeroDivisionError
      else (case round_fraction (nat a) (nat b) of
              Infinity \<Rightarrow> Inl OverflowError
            | Finite m e \<Rightarrow> Inr (Finite m e)))"

text \<open>
  \<open>x * y\<close> and \<open>x / y\<close> for floats, \<open>y\<close> finite and not zero (the program multiplies and
  divides by positive constants only).
\<close>

definition float_mul :: "pyfloat \<Rightarrow> pyfloat \<Rightarrow> pyfloat" where
  "float_mul x y =
     (case (x, y) of
        (Finite m1 e1, Finite m2 e2) \<Rightarrow>
          (let e = e1 + e2
           in if 0 \<le> e then round_fraction (m1 * m2 * 2 ^ nat e) 1
              else round_fraction (m1 * m2) (2 ^ nat (- e)))
      | _ \<Rightarrow> Infinity)"

definition float_div :: "pyfloat \<Rightarrow> pyfloat \<Rightarrow> pyfloat" where
  "float_div x y =
     (case (x, y) of
        (Finite m1 e1, Finite m2 e2) \<Rightarrow>
          (let e = e1 - e2
           in if 0 \<le> e then round_fraction (m1 * 2 ^ nat e) m2
              else round_fraction m1 (m2 * 2 ^ nat (- e)))
      | (Infinity, _) \<Rightarrow> Infinity
      | (_, Infinity) \<Rightarrow> Finite 0 0)"

definition float_less :: "pyfloat \<Rightarrow> pyfloat \<Rightarrow> bool" where
  "float_less x y =
     (case (x, y) of
        (Finite m1 e1, Finite m2 e2) \<Rightarrow>
          (let e = min e1 e2 in m1 * 2 ^ nat (e1 - e) < m2 * 2 ^ nat (e2 - e))
      | (Finite m1 e1, Infinity) \<Rightarrow> True
      | (Infinity, _) \<Rightarrow> False)"

text \<open>\<open>int(x)\<close>: the integer part; \<open>inf\<close> raises.\<close>

definition int_of_float :: "pyfloat \<Rightarrow> py_error + int" where
  "int_of_float x =
     (case x of
        Infinity \<Rightarrow> Inl OverflowError
      | Finite m e \<Rightarrow> Inr (if 0 \<le> e then int (m * 2 ^ nat e) else int (m div 2 ^ nat (- e))))"

text \<open>
  \<open>f"{x:.Nf}"\<close>: the exact value rounded to \<open>N\<close> decimals, ties to even, written with all
  \<open>N\<close> decimals.
\<close>

definition zfill :: "nat \<Rightarrow> string \<Rightarrow> string" where
  "zfill n s = replicate (n - length s) CHR ''0'' @ s"

definition format_fixed :: "nat \<Rightarrow> pyfloat \<Rightarrow> string" where
  "format_fixed N x =
     (case x of
        Infinity \<Rightarrow> ''inf''
      | Finite m e \<Rightarrow>
         (let scaled = (if 0 \<le> e then m * 2 ^ nat e * 10 ^ N else round_half_even (m * 10 ^ N) (2 ^ nat (- e)))
          in str_nat (scaled div 10 ^ N) @ (if N = 0 then '''' else ''.'' @ zfill N (str_nat (scaled mod 10 ^ N)))))"

section \<open>NotificationLimiter: the tracking file\<close>

text \<open>
  The tracking file is absent, cannot be opened or decoded (\<open>Unreadable\<close>: \<open>open\<close> or the
  read raises), holds text that \<open>json.load\<close> rejects (\<open>Corrupt\<close>), or holds a JSON value.
  \<open>today\<close> stands for \<open>date.today().isoformat()\<close>.
\<close>

datatype tracking_file = Absent | Unreadable | Corrupt | Json json

text \<open>
  \<open>_get_notification_count_today\<close>. The handler catches \<open>JSONDecodeError\<close> and \<open>KeyError\<close>
  only: a file that cannot be read raises, and so does \<open>.get\<close> on a value that is not an
  object. The value returned is the stored member, whatever it is.
\<close>

definition get_notification_count_today :: "string \<Rightarrow> tracking_file \<Rightarrow> py_error + json" where
  "get_notification_count_today today f =
     (case f of
        Absent \<Rightarrow> Inr (JInt 0)
      | Unreadable \<Rightarrow> Inl OSError
      | Corrupt \<Rightarrow> Inr (JInt 0)
      | Json j \<Rightarrow>
         (case j of
            JObject tracking_data \<Rightarrow>
              if map_of tracking_data ''date'' = Some (JStr today)
              then Inr (case map_of tracking_data ''count'' of Some v \<Rightarrow> v | None \<Rightarrow> JInt 0)
              else Inr (JInt 0)
          | _ \<Rightarrow> Inl AttributeError))"

text \<open>
  \<open>_increment_notification_count\<close>. Everything is inside \<open>try ... except Exception\<close>: when
  the file cannot be read or parsed, when the value is not an object, when the stored
  count cannot be added to, or when the file cannot be opened for writing (\<open>writable\<close>
  false), a warning is printed and the file stays as it is.
\<close>

definition store_incremented :: "bool \<Rightarrow> string \<Rightarrow> tracking_file \<Rightarrow> (string \<times> json) list \<Rightarrow> tracking_file" where
  "store_incremented writable today f tracking_data =
     (let tracking_data =
            (if map_of tracking_data ''date'' \<noteq> Some (JStr today)
             then [(''date'', JStr today), (''count'', JInt 0)] else tracking_data)
      in case py_add_one (case map_of tracking_data ''count'' of Some v \<Rightarrow> v | None \<Rightarrow> JInt 0) of
           Inl err \<Rightarrow> f
         | Inr v \<Rightarrow> if writable then Json (JObject (AList.update ''count'' v tracking_data)) else f)"

definition increment_notification_count :: "bool \<Rightarrow> string \<Rightarrow> tracking_file \<Rightarrow> tracking_file" where
  "increment_notification_count writable today f =
     (case f of
        Absent \<Rightarrow> store_incremented writable today f []
      | Unreadable \<Rightarrow> f
      | Corrupt \<Rightarrow> f
      | Json j \<Rightarrow>
         (case j of
            JObject tracking_data \<Rightarrow> store_incremented writable today f tracking_data
          | _ \<Rightarrow> f))"

section \<open>Notifier: \<open>send_pushover_notification\<close>\<close>

text \<open>
  The monitor object after \<open>__init__\<close>: the credentials, the daily cap (\<open>None\<close> when the
  settings give none, else the integer they give) and the drives with their thresholds
  in bytes.
\<close>

record monitor =
  pushover_token :: string
  pushover_user :: string
  max_push_notifications_per_day :: "int option"
  drives :: "(string \<times> int) list"

text \<open>
  What the run reads from outside: the date, the answer of \<open>get_disk_space\<close> for a path
  (\<open>None\<close> when the query fails, else total, used and free bytes), whether the \<open>n\<close>-th
  HTTP request of the run succeeds (\<open>requests.post\<close> and \<open>raise_for_status\<close> both return),
  and whether the tracking file can be written.
\<close>

record env =
  today :: string
  get_disk_space :: "string \<Rightarrow> (nat \<times> nat \<times> nat) option"
  post_succeeds :: "nat \<Rightarrow> bool"
  tracking_writable :: bool

text \<open>
  What the run changes: the tracking file, the HTTP requests made so far (title, message
  and priority of each) and the status lines printed so far.
\<close>

record world =
  tracking :: tracking_file
  posts :: "(string \<times> string \<times> int) list"
  status_lines :: "string list"

text \<open>
  The check of the daily limit at the head of \<open>send_pushover_notification\<close>: whether the
  limit is reached. It stands outside the \<open>try\<close>, so what it raises leaves the function.
\<close>

definition limit_reached :: "monitor \<Rightarrow> env \<Rightarrow> world \<Rightarrow> py_error + bool" where
  "limit_reached self e w =
     (case max_push_notifications_per_day self of
        None \<Rightarrow> Inr False
      | Some m \<Rightarrow>
         (case get_notification_count_today (today e) (tracking w) of
            Inl err \<Rightarrow> Inl err
          | Inr count_today \<Rightarrow> py_ge count_today m))"

definition send_pushover_notification ::
  "monitor \<Rightarrow> env \<Rightarrow> string \<Rightarrow> string \<Rightarrow> int \<Rightarrow> world \<Rightarrow> py_error + bool \<times> world" where
  "send_pushover_notification self e title message priority w =
     (case limit_reached self e w of
        Inl err \<Rightarrow> Inl err
      | Inr True \<Rightarrow> Inr (False, w)
      | Inr False \<Rightarrow>
         (let w1 = w\<lparr>posts := posts w @ [(title, message, priority)]\<rparr> in
          if post_succeeds e (length (posts w))
          then Inr (True,
                 if max_push_notifications_per_day self \<noteq> None
                 then w1\<lparr>tracking := increment_notification_count (tracking_writable e) (today e) (tracking w1)\<rparr>
                 else w1)
          else Inr (False, w1)))"

text \<open>
  The limiter's \<open>allow\<close> as the specification words it: with no cap always, with a cap
  iff the count of today is below it.
\<close>

definition spec_allow :: "int option \<Rightarrow> int \<Rightarrow> bool" where
  "spec_allow max_per_day count_today =
     (case max_per_day of None \<Rightarrow> True | Some m \<Rightarrow> count_today < m)"

section \<open>ByteFormatter, single-unit mode: \<open>format_bytes\<close>\<close>

text \<open>
  The loop of \<open>format_bytes\<close> on the float value. \<open>Finite 1 10\<close> is \<open>1024.0\<close>.
\<close>

fun format_bytes_loop :: "string list \<Rightarrow> pyfloat \<Rightarrow> string" where
  "format_bytes_loop [] bytes = format_fixed 2 bytes @ '' PB''"
| "format_bytes_loop (unit # us) bytes =
     (if float_less bytes (Finite 1 10) then format_fixed 2 bytes @ '' '' @ unit
      else format_bytes_loop us (float_div bytes (Finite 1 10)))"

text \<open>
  \<open>format_bytes\<close> is called with an integer. The comparison with \<open>1024.0\<close> is exact, and
  the formatting and the division turn the integer into the nearest float (which raises
  \<open>OverflowError\<close> beyond the float range), so the loop runs on \<open>float(bytes)\<close>. A negative
  integer is below \<open>1024.0\<close> at once and is printed in \<open>B\<close> with its sign.
\<close>

definition format_bytes :: "int \<Rightarrow> py_error + string" where
  "format_bytes bytes =
     (if bytes < 0
      then (case float_of_int (- bytes) of
              Inl err \<Rightarrow> Inl err
            | Inr x \<Rightarrow> Inr (''-'' @ format_fixed 2 x @ '' B''))
      else (case float_of_int bytes of
              Inl err \<Rightarrow> Inl err
            | Inr x \<Rightarrow> Inr (format_bytes_loop [''B'', ''KB'', ''MB'', ''GB'', ''TB''] x)))"

section \<open>VolumeChecker: \<open>check_and_notify\<close>\<close>

definition bind_err :: "py_error + 'a \<Rightarrow> ('a \<Rightarrow> py_error + 'b) \<Rightarrow> py_error + 'b" where
  "bind_err r f = (case r of Inl err \<Rightarrow> Inl err | Inr v \<Rightarrow> f v)"

text \<open>The status line printed for a volume; \<open>free_percent\<close> is printed with one decimal.\<close>

definition status_line :: "string \<Rightarrow> int \<Rightarrow> int \<Rightarrow> int \<Rightarrow> pyfloat \<Rightarrow> py_error + string" where
  "status_line drive_path free_space total_space minimum_bytes free_percent =
     bind_err (format_bytes free_space) (\<lambda>free.
     bind_err (format_bytes total_space) (\<lambda>total_text.
     bind_err (format_bytes minimum_bytes) (\<lambda>threshold.
       Inr (''Drive '' @ drive_path @ '': '' @ free @ '' free ('' @ format_fixed 1 free_percent
            @ ''%) of '' @ total_text @ '' [threshold: '' @ threshold @ '']''))))"

text \<open>
  The title and the message of the alert. The title starts with the warning sign and its
  variation selector (U+26A0, U+FE0F), written here as their UTF-8 bytes.
\<close>

definition warning_sign :: string where
  "warning_sign = [CHR 0xE2, CHR 0x9A, CHR 0xA0, CHR 0xEF, CHR 0xB8, CHR 0x8F]"

definition alert_title :: "string \<Rightarrow> string" where
  "alert_title drive_path = warning_sign @ '' Low Disk Space Alert: '' @ drive_path"

definition alert_message :: "string \<Rightarrow> int \<Rightarrow> int \<Rightarrow> int \<Rightarrow> int \<Rightarrow> pyfloat \<Rightarrow> py_error + string" where
  "alert_message drive_path free_space used_space total_space minimum_bytes free_percent =
     bind_err (format_bytes free_space) (\<lambda>free.
     bind_err (format_bytes used_space) (\<lambda>used.
     bind_err (format_bytes total_space) (\<lambda>total_text.
     bind_err (format_bytes minimum_bytes) (\<lambda>threshold.
       Inr (''Drive '' @ drive_path @ '' is running low on disk space!'' @ [CHR 0x0A, CHR 0x0A]
            @ ''Free space: '' @ free @ [CHR 0x0A]
            @ ''Used space: '' @ used @ [CHR 0x0A]
            @ ''Total space: '' @ total_text @ [CHR 0x0A]
            @ ''Free: '' @ format_fixed 1 free_percent @ ''%'' @ [CHR 0x0A, CHR 0x0A]
            @ ''Minimum threshold: '' @ threshold)))))"

text \<open>
  The body of the loop of \<open>check_and_notify\<close> for one drive. The result is the exception
  that leaves the loop, if any, and the world at that moment. \<open>Finite 25 2\<close> is \<open>100.0\<close>.
  Appending to the log file and drawing the graph act on files that are not part of
  \<open>world\<close>; the first cannot raise, the second is taken not to.
\<close>

definition check_drive :: "monitor \<Rightarrow> env \<Rightarrow> string \<times> int \<Rightarrow> world \<Rightarrow> py_error option \<times> world" where
  "check_drive self e drive_config w =
     (let drive_path = fst drive_config; minimum_bytes = snd drive_config
      in case get_disk_space e drive_path of
           None \<Rightarrow> (None, w)
         | Some (total_nat, used_nat, free_nat) \<Rightarrow>
            (let free_space = int free_nat; total_space = int total_nat; used_space = int used_nat
             in case int_true_div free_space total_space of
                  Inl err \<Rightarrow> (Some err, w)
                | Inr ratio \<Rightarrow>
                   (let free_percent = float_mul ratio (Finite 25 2)
                    in case status_line drive_path free_space total_space minimum_bytes free_percent of
                         Inl err \<Rightarrow> (Some err, w)
                       | Inr line \<Rightarrow>
                          (let w1 = w\<lparr>status_lines := status_lines w @ [line]\<rparr>
                           in if free_space < minimum_bytes
                              then (case alert_message drive_path free_space used_space total_space
                                           minimum_bytes free_percent of
                                      Inl err \<Rightarrow> (Some err, w1)
                                    | Inr message \<Rightarrow>
                                       (case send_pushover_notification self e (alert_title drive_path) message 1 w1 of
                                          Inl err \<Rightarrow> (Some err, w1)
                                        | Inr (sent, w2) \<Rightarrow> (None, w2)))
                              else (None, w1)))))"

fun check_and_notify_loop ::
  "monitor \<Rightarrow> env \<Rightarrow> (string \<times> int) list \<Rightarrow> world \<Rightarrow> py_error option \<times> world" where
  "check_and_notify_loop self e [] w = (None, w)"
| "check_and_notify_loop self e (drive_config # rest) w =
     (case check_drive self e drive_config w of
        (None, w1) \<Rightarrow> check_and_notify_loop self e rest w1
      | (Some err, w1) \<Rightarrow> (Some err, w1))"

definition check_and_notify :: "monitor \<Rightarrow> env \<Rightarrow> world \<Rightarrow> py_error option \<times> world" where
  "check_and_notify self e w = check_and_notify_loop self e (drives self) w"

text \<open>Whether a text occurs in another, for statements about printed lines.\<close>

fun occurs_in :: "string \<Rightarrow> string \<Rightarrow> bool" where
  "occurs_in p [] = (p = [])"
| "occurs_in p (c # cs) = (take (length p) (c # cs) = p \<or> occurs_in p cs)"

section \<open>Reading a printed size\<close>

text \<open>
  The reader of the specification side: it takes the text printed by the multi-unit
  formatter apart again. The text is cut at every space (as \<open>text.split(" ")\<close> does), the
  pieces are taken two by two as a count and a unit name, and a count is read as a decimal
  numeral without sign and without leading zeros. Any other text has no reading.
\<close>

fun split_on :: "char \<Rightarrow> string \<Rightarrow> string list" where
  "split_on sep [] = [[]]"
| "split_on sep (c # cs) =
     (if c = sep then [] # split_on sep cs
      else (case split_on sep cs of w # ws \<Rightarrow> (c # w) # ws | [] \<Rightarrow> [[c]]))"

definition is_digit :: "char \<Rightarrow> bool" where
  "is_digit c = (c \<in> set ''0123456789'')"

definition digit_value :: "char \<Rightarrow> nat" where
  "digit_value c = of_char c - 48"

definition read_nat :: "string \<Rightarrow> nat option" where
  "read_nat s =
     (if s \<noteq> [] \<and> list_all is_digit s \<and> (s = ''0'' \<or> hd s \<noteq> CHR ''0'')
      then Some (foldl (\<lambda>n c. 10 * n + digit_value c) 0 s) else None)"

fun read_components :: "string list \<Rightarrow> (int \<times> string) list option" where
  "read_components [] = Some []"
| "read_components [w] = None"
| "read_components (n # u # ws) =
     (case read_nat n of
        None \<Rightarrow> None
      | Some v \<Rightarrow> (case read_components ws of None \<Rightarrow> None | Some cs \<Rightarrow> Some ((int v, u) # cs)))"

definition printed_components :: "string \<Rightarrow> (int \<times> string) list option" where
  "printed_components text = read_components (split_on CHR '' '' text)"

section \<open>Properties\<close>

subsection \<open>The multi-unit formatter\<close>

lemma units_loop_step:
  "units_loop ((n, s) # us) r = (if r div s \<noteq> 0 then [(r div s, n)] else []) @ units_loop us (r mod s)"
  if "0 \<le> r" "0 < s"
proof (cases "s \<le> r")
  case True
  with that have "0 < r div s" by (simp add: pos_imp_zdiv_pos_iff)
  with True show ?thesis by simp
next
  case False
  with that show ?thesis by simp
qed

lemma filter_fst_step:
  "filter (\<lambda>p. fst p \<noteq> (0::int)) ((v, n) # ps) = (if v \<noteq> 0 then [(v, n)] else []) @ filter (\<lambda>p. fst p \<noteq> 0) ps"
  by simp

lemma units_loop_five:
  assumes "0 \<le> b" "0 < s1" "0 < s2" "0 < s3" "0 < s4" "0 < s5"
  shows "units_loop [(n1, s1), (n2, s2), (n3, s3), (n4, s4), (n5, s5)] b = filter (\<lambda>p. fst p \<noteq> 0)
     [(b div s1, n1),
      (b mod s1 div s2, n2),
      (b mod s1 mod s2 div s3, n3),
      (b mod s1 mod s2 mod s3 div s4, n4),
      (b mod s1 mod s2 mod s3 mod s4 div s5, n5)]"
proof -
  have r1: "0 \<le> b mod s1" using assms by simp
  have r2: "0 \<le> b mod s1 mod s2" using assms by simp
  have r3: "0 \<le> b mod s1 mod s2 mod s3" using assms by simp
  have r4: "0 \<le> b mod s1 mod s2 mod s3 mod s4" using assms by simp
  show ?thesis
    unfolding units_loop_step [OF assms(1) assms(2)] units_loop_step [OF r1 assms(3)]
      units_loop_step [OF r2 assms(4)] units_loop_step [OF r3 assms(5)]
      units_loop_step [OF r4 assms(6)] units_loop.simps(1) filter_fst_step filter.simps(1)
    by (rule refl)
qed

lemma units_loop_units:
  assumes "0 \<le> b"
  shows "units_loop units b = filter (\<lambda>p. fst p \<noteq> 0)
     [(b div 1024 ^ 4, ''TB''),
      (b mod 1024 ^ 4 div 1024 ^ 3, ''GB''),
      (b mod 1024 ^ 4 mod 1024 ^ 3 div 1024 ^ 2, ''MB''),
      (b mod 1024 ^ 4 mod 1024 ^ 3 mod 1024 ^ 2 div 1024, ''KB''),
      (b mod 1024 ^ 4 mod 1024 ^ 3 mod 1024 ^ 2 mod 1024 div 1, ''B'')]"
  unfolding units_def
  by (rule units_loop_five [OF assms]) simp_all

lemma units_loop_sum:
  assumes "0 \<le> b"
  shows "(\<Sum>p \<leftarrow> units_loop units b. unit_value (snd p) * fst p) = b"
proof -
  have f: "(\<Sum>p \<leftarrow> filter (\<lambda>p. fst p \<noteq> 0) ps. unit_value (snd p) * fst p)
         = (\<Sum>p \<leftarrow> ps. unit_value (snd p) * fst p)" for ps :: "(int \<times> string) list"
    by (induction ps) auto
  show ?thesis
    unfolding units_loop_units [OF assms] f
    by (simp add: unit_value_def units_def)
qed

lemma units_loop_pos:
  "0 \<le> r \<Longrightarrow> \<forall>u \<in> set us. 0 < snd u \<Longrightarrow> \<forall>p \<in> set (units_loop us r). 0 < fst p"
proof (induction us arbitrary: r)
  case Nil
  then show ?case by simp
next
  case (Cons u us)
  obtain n s where u: "u = (n, s)" by (cases u)
  from Cons.prems u have s: "0 < s" by simp
  from Cons.prems have rest: "\<forall>u \<in> set us. 0 < snd u" by simp
  have "0 \<le> r mod s" using s by simp
  from Cons.IH [OF this rest] Cons.IH [OF Cons.prems(1) rest] s Cons.prems(1)
  show ?case by (auto simp: u pos_imp_zdiv_pos_iff)
qed

lemma unit_value_units:
  "unit_value ''TB'' = 1099511627776"
  "unit_value ''GB'' = 1073741824"
  "unit_value ''MB'' = 1048576"
  "unit_value ''KB'' = 1024"
  "unit_value ''B'' = 1"
  by (simp_all add: unit_value_def units_def)

lemma sorted_wrt_filter_units:
  "sorted_wrt (\<lambda>p q. unit_value (snd q) < unit_value (snd p)) (filter P
     [(v1, ''TB''), (v2, ''GB''), (v3, ''MB''), (v4, ''KB''), (v5, ''B'')])"
  by (rule sorted_wrt_filter) (simp add: unit_value_units)

lemma units_loop_descending:
  assumes "0 \<le> b"
  shows "sorted_wrt (>) (map (\<lambda>p. unit_value (snd p)) (units_loop units b))"
  unfolding units_loop_units [OF assms] sorted_wrt_map
  by (rule sorted_wrt_filter_units)

lemma digit_char_digit:
  "d < 10 \<Longrightarrow> is_digit (digit_char d) \<and> digit_value (digit_char d) = d \<and> CHR '' '' \<noteq> digit_char d
     \<and> (digit_char d = CHR ''0'' \<longleftrightarrow> d = 0)"
proof -
  assume "d < 10"
  then have "d \<in> {0, 1, 2, 3, 4, 5, 6, 7, 8, 9}" by auto
  then show ?thesis
    by (auto simp: is_digit_def digit_value_def digit_char_def)
qed

lemma str_nat_digits:
  "str_nat n \<noteq> [] \<and> list_all is_digit (str_nat n) \<and> CHR '' '' \<notin> set (str_nat n)
     \<and> foldl (\<lambda>n c. 10 * n + digit_value c) 0 (str_nat n) = n
     \<and> (hd (str_nat n) = CHR ''0'' \<longrightarrow> n = 0)"
proof (induction n rule: str_nat.induct)
  case (1 n)
  show ?case
  proof (cases "n < 10")
    case True
    then show ?thesis
      using digit_char_digit [of n] by (simp add: str_nat.simps [of n])
  next
    case False
    then have m: "n mod 10 < 10" and d: "n div 10 \<noteq> 0" by auto
    from 1 [OF False] digit_char_digit [OF m] d False show ?thesis
      by (simp add: str_nat.simps [of n])
  qed
qed

lemma read_nat_str_nat:
  "read_nat (str_nat n) = Some n"
proof -
  have "str_nat n = ''0''" if "n = 0"
    using that by (simp add: str_nat.simps digit_char_def)
  then show ?thesis
    using str_nat_digits [of n] by (auto simp: read_nat_def)
qed

lemma split_on_no_sep:
  "sep \<notin> set a \<Longrightarrow> split_on sep a = [a]"
  by (induction a) auto

lemma split_on_append:
  "sep \<notin> set a \<Longrightarrow> split_on sep (a @ sep # b) = a # split_on sep b"
  by (induction a) auto

lemma units_loop_names:
  "\<forall>p \<in> set (units_loop us r). snd p \<in> fst ` set us"
  by (induction us r rule: units_loop.induct) auto

lemma read_rendered:
  assumes "\<forall>p \<in> set cs. 0 \<le> fst p \<and> CHR '' '' \<notin> set (snd p)" "cs \<noteq> []"
  shows "read_components (split_on CHR '' '' (join '' '' (map render_part cs))) = Some cs"
  using assms
proof (induction cs rule: induct_list012)
  case 1
  then show ?case by simp
next
  case (2 c)
  obtain v u where c: "c = (v, u)" by (cases c)
  with 2 have "0 \<le> v" "CHR '' '' \<notin> set u" by auto
  then show ?case
    using str_nat_digits [of "nat v"]
    by (simp add: c render_part_def split_on_append split_on_no_sep read_nat_str_nat)
next
  case (3 c d cs)
  obtain v u where c: "c = (v, u)" by (cases c)
  with 3 have vu: "0 \<le> v" "CHR '' '' \<notin> set u" by auto
  have rest: "read_components (split_on CHR '' '' (join '' '' (map render_part (d # cs)))) = Some (d # cs)"
    using 3 by simp
  have "join '' '' (map render_part (c # d # cs))
      = str_nat (nat v) @ CHR '' '' # (u @ CHR '' '' # join '' '' (map render_part (d # cs)))"
    by (simp add: c render_part_def)
  then show ?case
    using str_nat_digits [of "nat v"] vu rest
    by (simp add: c split_on_append read_nat_str_nat del: join.simps)
qed


lemma printed_components_zero:
  "printed_components ''0 B'' = Some [(0, ''B'')]"
  by (simp add: printed_components_def read_nat_def is_digit_def digit_value_def)

lemma render_zero:
  "join '' '' (map render_part [(0, ''B'')]) = ''0 B''"
  by (simp add: render_part_def str_nat.simps digit_char_def)

lemma printed_components_format:
  assumes "0 < b"
  shows "printed_components (format_bytes_multiple_units b) = Some (units_loop units b)
    \<and> format_bytes_multiple_units b = join '' '' (map render_part (units_loop units b))"
proof -
  from assms have b: "0 \<le> b" by simp
  have pos: "\<forall>p \<in> set (units_loop units b). 0 < fst p"
    by (rule units_loop_pos [OF b]) (simp add: units_def)
  have "\<forall>u \<in> fst ` set units. CHR '' '' \<notin> set u"
    by (simp add: units_def)
  with units_loop_names [of units b]
  have names: "\<forall>p \<in> set (units_loop units b). CHR '' '' \<notin> set (snd p)"
    by blast
  have nonempty: "units_loop units b \<noteq> []"
  proof
    assume "units_loop units b = []"
    with units_loop_sum [OF b] assms show False by simp
  qed
  have fmt: "format_bytes_multiple_units b = join '' '' (map render_part (units_loop units b))"
    using nonempty assms by (simp add: format_bytes_multiple_units_def)
  from pos names have "\<forall>p \<in> set (units_loop units b). 0 \<le> fst p \<and> CHR '' '' \<notin> set (snd p)"
    by force
  from read_rendered [OF this nonempty] fmt show ?thesis
    by (simp add: printed_components_def)
qed

text \<open>
  Claim C7. For every non-negative integer \<open>b\<close>, the text printed by the multi-unit
  formatter can be read back as a list of components (count and unit name), the text is
  exactly these components written out and joined by spaces, and the components
  decompose \<open>b\<close>: the unit values times the printed counts sum to \<open>b\<close>; for \<open>b \<noteq> 0\<close>
  every printed count is positive; the components are the non-zero ones among
  \<open>b div 1024^4\<close> TB, then the remainder divided by \<open>1024^3\<close> GB, and so on down to B
  (integer division, then modulo), so the units appear in descending order; and \<open>0\<close> is
  printed as \<open>0 B\<close>.
\<close>

theorem format_bytes_multiple_units_decomposes:
  assumes "0 \<le> b"
  shows "(\<exists>cs. printed_components (format_bytes_multiple_units b) = Some cs
      \<and> format_bytes_multiple_units b = join '' '' (map render_part cs)
      \<and> (\<Sum>p \<leftarrow> cs. unit_value (snd p) * fst p) = b
      \<and> (b \<noteq> 0 \<longrightarrow> (\<forall>p \<in> set cs. 0 < fst p))
      \<and> cs = (if b = 0 then [(0, ''B'')]
               else filter (\<lambda>p. fst p \<noteq> 0)
                 [(b div 1024 ^ 4, ''TB''),
                  (b mod 1024 ^ 4 div 1024 ^ 3, ''GB''),
                  (b mod 1024 ^ 4 mod 1024 ^ 3 div 1024 ^ 2, ''MB''),
                  (b mod 1024 ^ 4 mod 1024 ^ 3 mod 1024 ^ 2 div 1024, ''KB''),
                  (b mod 1024 ^ 4 mod 1024 ^ 3 mod 1024 ^ 2 mod 1024 div 1, ''B'')])
      \<and> sorted_wrt (>) (map (\<lambda>p. unit_value (snd p)) cs))
    \<and> format_bytes_multiple_units 0 = ''0 B''"
    (is "(\<exists>cs. ?P cs) \<and> ?Z")
proof -
  have zero: ?Z
    by (simp add: format_bytes_multiple_units_def)
  have "\<exists>cs. ?P cs"
  proof (cases "b = 0")
    case True
    have 1: "printed_components (format_bytes_multiple_units b) = Some [(0, ''B'')]"
      unfolding True zero by (rule printed_components_zero)
    have 2: "format_bytes_multiple_units b = join '' '' (map render_part [(0, ''B'')])"
      unfolding True zero render_zero by (rule refl)
    have 3: "(\<Sum>p \<leftarrow> [(0, ''B'')]. unit_value (snd p) * fst p) = b"
      using True by simp
    have 4: "b \<noteq> 0 \<longrightarrow> (\<forall>p \<in> set [(0::int, ''B'')]. 0 < fst p)"
      using True by simp
    have 5: "[(0::int, ''B'')] = (if b = 0 then [(0, ''B'')]
               else filter (\<lambda>p. fst p \<noteq> 0)
                 [(b div 1024 ^ 4, ''TB''),
                  (b mod 1024 ^ 4 div 1024 ^ 3, ''GB''),
                  (b mod 1024 ^ 4 mod 1024 ^ 3 div 1024 ^ 2, ''MB''),
                  (b mod 1024 ^ 4 mod 1024 ^ 3 mod 1024 ^ 2 div 1024, ''KB''),
                  (b mod 1024 ^ 4 mod 1024 ^ 3 mod 1024 ^ 2 mod 1024 div 1, ''B'')])"
      by (simp only: True if_True refl)
    have 6: "sorted_wrt (>) (map (\<lambda>p. unit_value (snd p)) [(0::int, ''B'')])"
      by simp
    have "?P [(0, ''B'')]"
      by (intro conjI) (rule 1 2 3 4 5 6)+
    then show ?thesis by (rule exI)
  next
    case False
    with assms have pos: "0 < b" by simp
    let ?L = "units_loop units b"
    note fmt = printed_components_format [OF pos]
    have 1: "printed_components (format_bytes_multiple_units b) = Some ?L"
      using fmt by (rule conjunct1)
    have 2: "format_bytes_multiple_units b = join '' '' (map render_part ?L)"
      using fmt by (rule conjunct2)
    have 3: "(\<Sum>p \<leftarrow> ?L. unit_value (snd p) * fst p) = b"
      by (rule units_loop_sum [OF assms])
    have "\<forall>p \<in> set ?L. 0 < fst p"
      by (rule units_loop_pos [OF assms]) (simp add: units_def)
    then have 4: "b \<noteq> 0 \<longrightarrow> (\<forall>p \<in> set ?L. 0 < fst p)"
      by (rule_tac impI)
    have 5: "?L = (if b = 0 then [(0, ''B'')]
               else filter (\<lambda>p. fst p \<noteq> 0)
                 [(b div 1024 ^ 4, ''TB''),
                  (b mod 1024 ^ 4 div 1024 ^ 3, ''GB''),
                  (b mod 1024 ^ 4 mod 1024 ^ 3 div 1024 ^ 2, ''MB''),
                  (b mod 1024 ^ 4 mod 1024 ^ 3 mod 1024 ^ 2 div 1024, ''KB''),
                  (b mod 1024 ^ 4 mod 1024 ^ 3 mod 1024 ^ 2 mod 1024 div 1, ''B'')])"
      using units_loop_units [OF assms] by (simp only: False if_False)
    have 6: "sorted_wrt (>) (map (\<lambda>p. unit_value (snd p)) ?L)"
      by (rule units_loop_descending [OF assms])
    have "?P ?L"
      by (intro conjI) (rule 1 2 3 4 5 6)+
    then show ?thesis by (rule exI)
  qed
  then show ?thesis using zero by (rule conjI)
qed

text \<open>The theorem at \<open>b = 1 TB + 54 GB + 239 MB\<close>, the example of the docstring.\<close>

theorem format_bytes_multiple_units_decomposes_witness:
  "0 \<le> (1157744295936 :: int)
   \<and> format_bytes_multiple_units 1157744295936 = ''1 TB 54 GB 239 MB''
   \<and> printed_components (format_bytes_multiple_units 1157744295936)
       = Some [(1, ''TB''), (54, ''GB''), (239, ''MB'')]"
proof -
  have nonneg: "0 \<le> (1157744295936 :: int)" by simp
  from format_bytes_multiple_units_decomposes [OF nonneg]
  have "\<exists>cs. printed_components (format_bytes_multiple_units 1157744295936) = Some cs
      \<and> format_bytes_multiple_units 1157744295936 = join '' '' (map render_part cs)
      \<and> (\<Sum>p \<leftarrow> cs. unit_value (snd p) * fst p) = 1157744295936
      \<and> ((1157744295936 :: int) \<noteq> 0 \<longrightarrow> (\<forall>p \<in> set cs. 0 < fst p))
      \<and> cs = (if (1157744295936 :: int) = 0 then [(0, ''B'')]
               else filter (\<lambda>p. fst p \<noteq> 0)
                 [(1157744295936 div 1024 ^ 4, ''TB''),
                  (1157744295936 mod 1024 ^ 4 div 1024 ^ 3, ''GB''),
                  (1157744295936 mod 1024 ^ 4 mod 1024 ^ 3 div 1024 ^ 2, ''MB''),
                  (1157744295936 mod 1024 ^ 4 mod 1024 ^ 3 mod 1024 ^ 2 div 1024, ''KB''),
                  (1157744295936 mod 1024 ^ 4 mod 1024 ^ 3 mod 1024 ^ 2 mod 1024 div 1, ''B'')])
      \<and> sorted_wrt (>) (map (\<lambda>p. unit_value (snd p)) cs)"
    by (rule conjunct1)
  then obtain cs where P: "printed_components (format_bytes_multiple_units 1157744295936) = Some cs
      \<and> format_bytes_multiple_units 1157744295936 = join '' '' (map render_part cs)
      \<and> (\<Sum>p \<leftarrow> cs. unit_value (snd p) * fst p) = 1157744295936
      \<and> ((1157744295936 :: int) \<noteq> 0 \<longrightarrow> (\<forall>p \<in> set cs. 0 < fst p))
      \<and> cs = (if (1157744295936 :: int) = 0 then [(0, ''B'')]
               else filter (\<lambda>p. fst p \<noteq> 0)
                 [(1157744295936 div 1024 ^ 4, ''TB''),
                  (1157744295936 mod 1024 ^ 4 div 1024 ^ 3, ''GB''),
                  (1157744295936 mod 1024 ^ 4 mod 1024 ^ 3 div 1024 ^ 2, ''MB''),
                  (1157744295936 mod 1024 ^ 4 mod 1024 ^ 3 mod 1024 ^ 2 div 1024, ''KB''),
                  (1157744295936 mod 1024 ^ 4 mod 1024 ^ 3 mod 1024 ^ 2 mod 1024 div 1, ''B'')])
      \<and> sorted_wrt (>) (map (\<lambda>p. unit_value (snd p)) cs)" ..
  note P1 = P [THEN conjunct1]
  note P2 = P [THEN conjunct2, THEN conjunct1]
  note P5 = P [THEN conjunct2, THEN conjunct2, THEN conjunct2, THEN conjunct2, THEN conjunct1]
  from P5 have c: "cs = [(1, ''TB''), (54, ''GB''), (239, ''MB'')]" by simp
  have r: "join '' '' (map render_part [(1, ''TB''), (54, ''GB''), (239, ''MB'')]) = ''1 TB 54 GB 239 MB''"
    by (simp add: render_part_def str_nat.simps digit_char_def)
  have f: "format_bytes_multiple_units 1157744295936 = ''1 TB 54 GB 239 MB''"
    using P2 unfolding c r .
  have p: "printed_components (format_bytes_multiple_units 1157744295936)
       = Some [(1, ''TB''), (54, ''GB''), (239, ''MB'')]"
    using P1 unfolding c .
  show ?thesis using nonneg f p by (intro conjI)
qed

lemma format_bytes_multiple_units_example:
  "format_bytes_multiple_units 1157744295936 = ''1 TB 54 GB 239 MB''"
  by (simp add: format_bytes_multiple_units_def units_def render_part_def str_nat.simps digit_char_def)

subsection \<open>Log file names\<close>

text \<open>
  Claim C8. The derived log file name is said never to be empty, an empty result being
  mapped to \<open>root\<close>. The source tests for the empty name before it removes the colons:
  for the path \<open>:\<close> the name left after colon removal is empty and the log file is
  \<open>.log\<close>.
\<close>

theorem get_log_filename_colon_path:
  "safe_name '':'' = '''' \<and> get_log_filename '':'' = ''.log''"
  by (simp add: get_log_filename_def safe_name_def rstrip_def replace_char_def path_separators_def)

lemma get_log_filename_examples:
  "get_log_filename ''/'' = ''root.log''"
  "get_log_filename ''C:'' = ''C.log''"
  "get_log_filename ''/mnt/data/'' = ''_mnt_data.log''"
  by (simp_all add: get_log_filename_def safe_name_def rstrip_def replace_char_def path_separators_def)

subsection \<open>The notification tracker\<close>

lemma increment_fresh:
  "increment_notification_count True day (Json (JObject [(''date'', JStr day), (''count'', JInt k)]))
     = Json (JObject [(''date'', JStr day), (''count'', JInt (k + 1))])"
  by (simp add: increment_notification_count_def store_incremented_def py_add_one_def)

lemma increment_stale:
  "map_of d ''date'' \<noteq> Some (JStr day) \<Longrightarrow>
     increment_notification_count True day (Json (JObject d))
       = Json (JObject [(''date'', JStr day), (''count'', JInt 1)])"
  by (simp add: increment_notification_count_def store_incremented_def py_add_one_def)

lemma increment_absent:
  "increment_notification_count True day Absent
     = Json (JObject [(''date'', JStr day), (''count'', JInt 1)])"
  by (simp add: increment_notification_count_def store_incremented_def py_add_one_def)

lemma increments_fresh:
  "(increment_notification_count True day ^^ n) (Json (JObject [(''date'', JStr day), (''count'', JInt k)]))
     = Json (JObject [(''date'', JStr day), (''count'', JInt (k + int n))])"
proof (induction n)
  case 0
  then show ?case by simp
next
  case (Suc n)
  then show ?case by (simp add: increment_fresh add.commute add.left_commute)
qed

lemma count_fresh:
  "get_notification_count_today day (Json (JObject [(''date'', JStr day), (''count'', JInt k)]))
     = Inr (JInt k)"
  by (simp add: get_notification_count_today_def)

lemma count_other_day:
  "day' \<noteq> day \<Longrightarrow>
     get_notification_count_today day' (Json (JObject [(''date'', JStr day), (''count'', v)]))
       = Inr (JInt 0)"
  by (simp add: get_notification_count_today_def)

lemma increments_from:
  assumes "increment_notification_count True day f = Json (JObject [(''date'', JStr day), (''count'', JInt 1)])"
  shows "(increment_notification_count True day ^^ Suc n) f
           = Json (JObject [(''date'', JStr day), (''count'', JInt (1 + int n))])"
proof -
  have "(increment_notification_count True day ^^ Suc n) f
          = (increment_notification_count True day ^^ n) (increment_notification_count True day f)"
    by (simp only: funpow_Suc_right o_apply)
  then show ?thesis
    by (simp only: assms increments_fresh)
qed

text \<open>
  Claim C3. The stored count never spans a day boundary. For a tracking file whose stored
  date is not today (or is missing), whatever its stored count: \<open>count_today\<close> is 0;
  \<open>record_send\<close> acts as on the record \<open>{date: today, count: 0}\<close> and leaves
  \<open>{date: today, count: 1}\<close>; after \<open>n\<close> calls of \<open>record_send\<close> on that day, starting
  from this file or from no file, \<open>count_today\<close> is \<open>n\<close>; and one more call on another
  day makes it 1. (The tracking file is writable.)
\<close>

theorem count_never_spans_days:
  assumes "map_of d ''date'' \<noteq> Some (JStr day)"
  shows "get_notification_count_today day (Json (JObject d)) = Inr (JInt 0)
    \<and> increment_notification_count True day (Json (JObject d))
        = increment_notification_count True day (Json (JObject [(''date'', JStr day), (''count'', JInt 0)]))
    \<and> increment_notification_count True day (Json (JObject d))
        = Json (JObject [(''date'', JStr day), (''count'', JInt 1)])
    \<and> get_notification_count_today day
         ((increment_notification_count True day ^^ n) (Json (JObject d))) = Inr (JInt (int n))
    \<and> get_notification_count_today day
         ((increment_notification_count True day ^^ n) Absent) = Inr (JInt (int n))
    \<and> (day' \<noteq> day \<longrightarrow>
         get_notification_count_today day'
           (increment_notification_count True day'
              ((increment_notification_count True day ^^ Suc n) (Json (JObject d)))) = Inr (JInt 1))"
proof -
  have 1: "get_notification_count_today day (Json (JObject d)) = Inr (JInt 0)"
    using assms by (simp add: get_notification_count_today_def)
  note 3 = increment_stale [OF assms]
  have 2: "increment_notification_count True day (Json (JObject d))
        = increment_notification_count True day (Json (JObject [(''date'', JStr day), (''count'', JInt 0)]))"
    unfolding 3 increment_fresh by simp
  have 4: "get_notification_count_today day
         ((increment_notification_count True day ^^ n) (Json (JObject d))) = Inr (JInt (int n))"
  proof (cases n)
    case 0
    then show ?thesis using 1 by simp
  next
    case (Suc m)
    show ?thesis unfolding Suc increments_from [OF 3] count_fresh by simp
  qed
  have 5: "get_notification_count_today day
         ((increment_notification_count True day ^^ n) Absent) = Inr (JInt (int n))"
  proof (cases n)
    case 0
    then show ?thesis by (simp add: get_notification_count_today_def)
  next
    case (Suc m)
    show ?thesis unfolding Suc increments_from [OF increment_absent] count_fresh by simp
  qed
  have 6: "get_notification_count_today day'
           (increment_notification_count True day'
              ((increment_notification_count True day ^^ Suc n) (Json (JObject d)))) = Inr (JInt 1)"
    if "day' \<noteq> day"
  proof -
    have stale: "map_of [(''date'', JStr day), (''count'', JInt (1 + int n))] ''date'' \<noteq> Some (JStr day')"
      using that by simp
    show ?thesis
      unfolding increments_from [OF 3] increment_stale [OF stale] count_fresh by (rule refl)
  qed
  from 1 2 3 4 5 6 show ?thesis by blast
qed

text \<open>Three sends on 2 January after seven recorded on 1 January.\<close>

theorem count_never_spans_days_witness:
  "map_of [(''date'', JStr ''2024-01-01''), (''count'', JInt 7)] ''date'' \<noteq> Some (JStr ''2024-01-02'')
   \<and> get_notification_count_today ''2024-01-02''
        (Json (JObject [(''date'', JStr ''2024-01-01''), (''count'', JInt 7)])) = Inr (JInt 0)
   \<and> increment_notification_count True ''2024-01-02''
        (Json (JObject [(''date'', JStr ''2024-01-01''), (''count'', JInt 7)]))
       = Json (JObject [(''date'', JStr ''2024-01-02''), (''count'', JInt 1)])
   \<and> get_notification_count_today ''2024-01-02''
        ((increment_notification_count True ''2024-01-02'' ^^ 3)
           (Json (JObject [(''date'', JStr ''2024-01-01''), (''count'', JInt 7)]))) = Inr (JInt (int 3))"
proof -
  have stale: "map_of [(''date'', JStr ''2024-01-01''), (''count'', JInt 7)] ''date'' \<noteq> Some (JStr ''2024-01-02'')"
    by simp
  from count_never_spans_days [OF stale, where n = 3 and day' = "''2024-01-03''"] stale show ?thesis
    by blast
qed

subsection \<open>The notifier\<close>

lemma posts_extended_neq:
  "w\<lparr>posts := posts w @ [x]\<rparr> \<noteq> w"
proof
  assume "w\<lparr>posts := posts w @ [x]\<rparr> = w"
  then have "posts (w\<lparr>posts := posts w @ [x]\<rparr>) = posts w" by simp
  then show False by simp
qed

lemma send_not_reached:
  assumes "limit_reached self e w = Inr False"
  shows "\<exists>r w'. send_pushover_notification self e title message priority w = Inr (r, w')
           \<and> posts w' = posts w @ [(title, message, priority)]"
    and "send_pushover_notification self e title message priority w \<noteq> Inr (False, w)"
  using assms by (auto simp: send_pushover_notification_def Let_def posts_extended_neq)

lemma send_reached:
  assumes "limit_reached self e w = Inr True"
  shows "send_pushover_notification self e title message priority w = Inr (False, w)"
    and "\<not> (\<exists>r w'. send_pushover_notification self e title message priority w = Inr (r, w')
           \<and> posts w' = posts w @ [(title, message, priority)])"
  using assms by (auto simp: send_pushover_notification_def)

lemma limit_reached_iff:
  assumes "max_push_notifications_per_day self = None
           \<or> get_notification_count_today (today e) (tracking w) = Inr (JInt c)"
  shows "limit_reached self e w = Inr (\<not> spec_allow (max_push_notifications_per_day self) c)"
  using assms by (auto simp: limit_reached_def spec_allow_def py_ge_def split: option.splits)

lemma send_raises:
  "limit_reached self e w = Inl err \<Longrightarrow>
     send_pushover_notification self e title message priority w = Inl err"
  by (simp add: send_pushover_notification_def)

text \<open>
  Claim C4. \<open>send_pushover_notification\<close> makes the HTTP request iff the daily cap permits
  it (\<open>spec_allow\<close>): with no cap it always does; with a cap \<open>m\<close> and the integer \<open>c\<close> as
  the count of today it does iff \<open>c < m\<close>, and otherwise it returns false and changes
  nothing, no request being made. With the cap 0 and a count that is not negative, no
  request is made.
\<close>

theorem send_allowed_iff_cap_permits:
  assumes "max_push_notifications_per_day self = None
           \<or> get_notification_count_today (today e) (tracking w) = Inr (JInt c)"
  shows "((\<exists>r w'. send_pushover_notification self e title message priority w = Inr (r, w')
             \<and> posts w' = posts w @ [(title, message, priority)])
          \<longleftrightarrow> spec_allow (max_push_notifications_per_day self) c)
    \<and> (send_pushover_notification self e title message priority w = Inr (False, w)
          \<longleftrightarrow> \<not> spec_allow (max_push_notifications_per_day self) c)
    \<and> (max_push_notifications_per_day self = None \<longrightarrow>
          (\<exists>r w'. send_pushover_notification self e title message priority w = Inr (r, w')
             \<and> posts w' = posts w @ [(title, message, priority)]))
    \<and> (max_push_notifications_per_day self = Some 0 \<and> 0 \<le> c \<longrightarrow>
          send_pushover_notification self e title message priority w = Inr (False, w))"
proof (cases "spec_allow (max_push_notifications_per_day self) c")
  case True
  with limit_reached_iff [OF assms] have "limit_reached self e w = Inr False" by simp
  from send_not_reached [OF this, of title message priority] True show ?thesis
    by (auto simp: spec_allow_def)
next
  case False
  with limit_reached_iff [OF assms] have "limit_reached self e w = Inr True" by simp
  from send_reached [OF this, of title message priority] False show ?thesis
    by (auto simp: spec_allow_def split: option.splits)
qed

text \<open>With the cap 0 and no tracking file, and with the cap 3 after two sends of the day.\<close>

theorem send_allowed_iff_cap_permits_witness:
  "get_notification_count_today ''2024-01-02'' Absent = Inr (JInt 0)
   \<and> send_pushover_notification
        \<lparr>pushover_token = ''t'', pushover_user = ''u'', max_push_notifications_per_day = Some 0, drives = []\<rparr>
        \<lparr>today = ''2024-01-02'', get_disk_space = (\<lambda>p. None), post_succeeds = (\<lambda>n. True), tracking_writable = True\<rparr>
        ''title'' ''message'' 1
        \<lparr>tracking = Absent, posts = [], status_lines = []\<rparr>
      = Inr (False, \<lparr>tracking = Absent, posts = [], status_lines = []\<rparr>)
   \<and> get_notification_count_today ''2024-01-02''
        (Json (JObject [(''date'', JStr ''2024-01-02''), (''count'', JInt 2)])) = Inr (JInt 2)
   \<and> (\<exists>r w'. send_pushover_notification
        \<lparr>pushover_token = ''t'', pushover_user = ''u'', max_push_notifications_per_day = Some 3, drives = []\<rparr>
        \<lparr>today = ''2024-01-02'', get_disk_space = (\<lambda>p. None), post_succeeds = (\<lambda>n. True), tracking_writable = True\<rparr>
        ''title'' ''message'' 1
        \<lparr>tracking = Json (JObject [(''date'', JStr ''2024-01-02''), (''count'', JInt 2)]), posts = [], status_lines = []\<rparr>
      = Inr (r, w') \<and> posts w' = [(''title'', ''message'', 1)])"
proof -
  have c0: "get_notification_count_today ''2024-01-02'' Absent = Inr (JInt 0)"
    by (simp add: get_notification_count_today_def)
  have c2: "get_notification_count_today ''2024-01-02''
        (Json (JObject [(''date'', JStr ''2024-01-02''), (''count'', JInt 2)])) = Inr (JInt 2)"
    by (simp add: get_notification_count_today_def)
  from send_allowed_iff_cap_permits
    [where self = "\<lparr>pushover_token = ''t'', pushover_user = ''u'', max_push_notifications_per_day = Some 0, drives = []\<rparr>"
       and e = "\<lparr>today = ''2024-01-02'', get_disk_space = (\<lambda>p. None), post_succeeds = (\<lambda>n. True), tracking_writable = True\<rparr>"
       and w = "\<lparr>tracking = Absent, posts = [], status_lines = []\<rparr>" and c = 0
       and title = "''title''" and message = "''message''" and priority = 1]
  have a: "send_pushover_notification
        \<lparr>pushover_token = ''t'', pushover_user = ''u'', max_push_notifications_per_day = Some 0, drives = []\<rparr>
        \<lparr>today = ''2024-01-02'', get_disk_space = (\<lambda>p. None), post_succeeds = (\<lambda>n. True), tracking_writable = True\<rparr>
        ''title'' ''message'' 1
        \<lparr>tracking = Absent, posts = [], status_lines = []\<rparr>
      = Inr (False, \<lparr>tracking = Absent, posts = [], status_lines = []\<rparr>)"
    using c0 by simp
  from send_allowed_iff_cap_permits
    [where self = "\<lparr>pushover_token = ''t'', pushover_user = ''u'', max_push_notifications_per_day = Some 3, drives = []\<rparr>"
       and e = "\<lparr>today = ''2024-01-02'', get_disk_space = (\<lambda>p. None), post_succeeds = (\<lambda>n. True), tracking_writable = True\<rparr>"
       and w = "\<lparr>tracking = Json (JObject [(''date'', JStr ''2024-01-02''), (''count'', JInt 2)]), posts = [], status_lines = []\<rparr>"
       and c = 2 and title = "''title''" and message = "''message''" and priority = 1]
  have b: "\<exists>r w'. send_pushover_notification
        \<lparr>pushover_token = ''t'', pushover_user = ''u'', max_push_notifications_per_day = Some 3, drives = []\<rparr>
        \<lparr>today = ''2024-01-02'', get_disk_space = (\<lambda>p. None), post_succeeds = (\<lambda>n. True), tracking_writable = True\<rparr>
        ''title'' ''message'' 1
        \<lparr>tracking = Json (JObject [(''date'', JStr ''2024-01-02''), (''count'', JInt 2)]), posts = [], status_lines = []\<rparr>
      = Inr (r, w') \<and> posts w' = [(''title'', ''message'', 1)]"
    using c2 by (simp add: spec_allow_def)
  from c0 a c2 b show ?thesis by (intro conjI)
qed

text \<open>
  Claim C5 says that \<open>record_send\<close> is called on every confirmed send, whether or not a
  daily cap is set. With no cap the source skips the call: the send returns true and the
  tracking file is left as it was, here absent, where \<open>record_send\<close> would have created
  it.
\<close>

theorem send_without_cap_records_nothing:
  "send_pushover_notification
        \<lparr>pushover_token = ''t'', pushover_user = ''u'', max_push_notifications_per_day = None, drives = []\<rparr>
        \<lparr>today = ''2024-01-02'', get_disk_space = (\<lambda>p. None), post_succeeds = (\<lambda>n. True), tracking_writable = True\<rparr>
        ''title'' ''message'' 1
        \<lparr>tracking = Absent, posts = [], status_lines = []\<rparr>
      = Inr (True, \<lparr>tracking = Absent, posts = [(''title'', ''message'', 1)], status_lines = []\<rparr>)
   \<and> increment_notification_count True ''2024-01-02'' Absent
      = Json (JObject [(''date'', JStr ''2024-01-02''), (''count'', JInt 1)])
   \<and> increment_notification_count True ''2024-01-02'' Absent \<noteq> Absent"
  by (simp add: send_pushover_notification_def limit_reached_def increment_notification_count_def
        store_incremented_def py_add_one_def)

text \<open>
  Claim C5, amended. When the limit is not reached and the request succeeds,
  \<open>send_pushover_notification\<close> returns true and the request is made; \<open>record_send\<close> is
  called iff a daily cap is set, and with no cap the tracking file is left as it was.
\<close>

theorem send_success_records_iff_cap:
  assumes "limit_reached self e w = Inr False" and "post_succeeds e (length (posts w))"
  shows "send_pushover_notification self e title message priority w =
           Inr (True, w\<lparr>posts := posts w @ [(title, message, priority)],
                        tracking := (if max_push_notifications_per_day self = None then tracking w
                                     else increment_notification_count (tracking_writable e) (today e) (tracking w))\<rparr>)"
  using assms by (simp add: send_pushover_notification_def Let_def)

text \<open>The first send of the day under the cap 3: the count goes to 1.\<close>

theorem send_success_records_iff_cap_witness:
  "limit_reached
        \<lparr>pushover_token = ''t'', pushover_user = ''u'', max_push_notifications_per_day = Some 3, drives = []\<rparr>
        \<lparr>today = ''2024-01-02'', get_disk_space = (\<lambda>p. None), post_succeeds = (\<lambda>n. True), tracking_writable = True\<rparr>
        \<lparr>tracking = Absent, posts = [], status_lines = []\<rparr> = Inr False
   \<and> send_pushover_notification
        \<lparr>pushover_token = ''t'', pushover_user = ''u'', max_push_notifications_per_day = Some 3, drives = []\<rparr>
        \<lparr>today = ''2024-01-02'', get_disk_space = (\<lambda>p. None), post_succeeds = (\<lambda>n. True), tracking_writable = True\<rparr>
        ''title'' ''message'' 1
        \<lparr>tracking = Absent, posts = [], status_lines = []\<rparr>
      = Inr (True, \<lparr>tracking = Json (JObject [(''date'', JStr ''2024-01-02''), (''count'', JInt 1)]),
                     posts = [(''title'', ''message'', 1)], status_lines = []\<rparr>)"
proof -
  have l: "limit_reached
        \<lparr>pushover_token = ''t'', pushover_user = ''u'', max_push_notifications_per_day = Some 3, drives = []\<rparr>
        \<lparr>today = ''2024-01-02'', get_disk_space = (\<lambda>p. None), post_succeeds = (\<lambda>n. True), tracking_writable = True\<rparr>
        \<lparr>tracking = Absent, posts = [], status_lines = []\<rparr> = Inr False"
    by (simp add: limit_reached_def get_notification_count_today_def py_ge_def)
  from send_success_records_iff_cap [OF l, of "''title''" "''message''" 1] l show ?thesis
    by (simp add: increment_notification_count_def store_incremented_def py_add_one_def)
qed

end
